theory Spec2Isabelle
  imports Complex_Main "HOL-Library.Sublist"
begin

section \<open>Text primitives used by data_cleaning.py\<close>

text \<open>
  Python strings are modelled as \<^typ>\<open>string\<close>. The character classes are those of
  Python on the ASCII range: \<open>str.isspace\<close> holds for the code points 9 to 13 and 28 to 32,
  the cased letters are A to Z and a to z. Code points from 128 on are treated as caseless
  characters that are not whitespace.
\<close>

definition isspace :: "char \<Rightarrow> bool" where
  "isspace c = (let n = (of_char c :: nat) in (9 \<le> n \<and> n \<le> 13) \<or> (28 \<le> n \<and> n \<le> 32))"

definition isupper :: "char \<Rightarrow> bool" where
  "isupper c = (let n = (of_char c :: nat) in 65 \<le> n \<and> n \<le> 90)"

definition islower :: "char \<Rightarrow> bool" where
  "islower c = (let n = (of_char c :: nat) in 97 \<le> n \<and> n \<le> 122)"

definition lower_char :: "char \<Rightarrow> char" where
  "lower_char c = (if isupper c then char_of (of_char c + (32::nat)) else c)"

definition upper_char :: "char \<Rightarrow> char" where
  "upper_char c = (if islower c then char_of (of_char c - (32::nat)) else c)"

text \<open>\<open>s.strip(chars)\<close>: drop the characters of the class from both ends.\<close>

definition strip_where :: "(char \<Rightarrow> bool) \<Rightarrow> string \<Rightarrow> string" where
  "strip_where P s = rev (dropWhile P (rev (dropWhile P s)))"

text \<open>\<open>s.strip()\<close> with no argument strips whitespace.\<close>

definition strip :: "string \<Rightarrow> string" where
  "strip s = strip_where isspace s"

text \<open>\<open>s.strip('"')\<close> strips the double quote character only.\<close>

definition strip_quotes :: "string \<Rightarrow> string" where
  "strip_quotes s = strip_where (\<lambda>c. c = CHR 0x22) s"

definition lower :: "string \<Rightarrow> string" where
  "lower s = map lower_char s"

text \<open>\<open>s.replace(" ", "_")\<close>: pattern and replacement are single characters.\<close>

definition replace_char :: "char \<Rightarrow> char \<Rightarrow> string \<Rightarrow> string" where
  "replace_char a b s = map (\<lambda>c. if c = a then b else c) s"

text \<open>
  \<open>re.sub(r"\s+", " ", s)\<close>: every maximal run of whitespace becomes one space.
\<close>

function collapse_ws :: "string \<Rightarrow> string" where
  "collapse_ws [] = []"
| "collapse_ws (c # cs) =
     (if isspace c then CHR '' '' # collapse_ws (dropWhile isspace cs)
      else c # collapse_ws cs)"
  by pat_completeness auto
termination
  by (relation "measure length") (auto simp: length_dropWhile_le less_Suc_eq_le)

text \<open>
  \<open>s.title()\<close>: a cased character is put in upper case when the character before it is
  not cased (or there is none), and in lower case otherwise. The flag is CPython's
  \<open>previous_is_cased\<close>.
\<close>

fun title_from :: "bool \<Rightarrow> string \<Rightarrow> string" where
  "title_from prev [] = []"
| "title_from prev (c # cs) =
     (if islower c then (if prev then c else upper_char c) # title_from True cs
      else if isupper c then (if prev then lower_char c else c) # title_from True cs
      else c # title_from False cs)"

definition title :: "string \<Rightarrow> string" where
  "title s = title_from False s"

text \<open>\<open>w in s\<close> for strings: \<open>w\<close> occurs in \<open>s\<close> as a contiguous substring.\<close>

fun contains :: "string \<Rightarrow> string \<Rightarrow> bool" where
  "contains [] w = (w = [])"
| "contains (c # cs) w = (prefix w (c # cs) \<or> contains cs w)"


section \<open>Tables\<close>

text \<open>
  A cell holds what \<open>pd.read_csv\<close> and the stages of the script can put there: text, a
  number, the missing number \<open>NaN\<close>, a timestamp (nanoseconds since the epoch) and the
  missing timestamp \<open>NaT\<close>. Numbers are rationals: the script only compares them with
  zero and with each other.
\<close>

datatype cell = Str string | Num rat | NaN | Date int | NaT

text \<open>
  A DataFrame: the column labels in order (pandas allows a label to occur twice) and the
  rows in order, each row holding one cell per column.
\<close>

record table =
  columns :: "string list"
  rows :: "cell list list"

text \<open>
  A DataFrame is rectangular. The stages read the cell of row \<open>r\<close> in column \<open>i\<close> as
  \<open>r ! i\<close>; what is stated about the contents of cells is stated for rectangular tables.
\<close>

definition wf_table :: "table \<Rightarrow> bool" where
  "wf_table t = list_all (\<lambda>r. length r = length (columns t)) (rows t)"


section \<open>clean_column_names\<close>

definition clean_name :: "string \<Rightarrow> string" where
  "clean_name s = replace_char (CHR '' '') (CHR ''_'') (lower (strip s))"

definition clean_column_names :: "table \<Rightarrow> table" where
  "clean_column_names df = df\<lparr>columns := map clean_name (columns df)\<rparr>"


section \<open>Selecting and assigning columns\<close>

datatype error = KeyError string | AttributeError | TypeError | ValueError | Unsupported

text \<open>
  \<open>df[name]\<close> raises \<open>KeyError\<close> when no column carries the label, is a Series when one
  column does, and is a DataFrame when several do. A Series is represented by the
  position of its column.
\<close>

datatype selection = Series nat | Frame

fun get_loc :: "string list \<Rightarrow> string \<Rightarrow> nat" where
  "get_loc [] name = 0"
| "get_loc (c # cs) name = (if c = name then 0 else Suc (get_loc cs name))"

definition getitem :: "table \<Rightarrow> string \<Rightarrow> error + selection" where
  "getitem df name =
     (if name \<notin> set (columns df) then Inl (KeyError name)
      else if count_list (columns df) name = 1 then Inr (Series (get_loc (columns df) name))
      else Inr Frame)"

text \<open>The values of the column at position \<open>i\<close>, top to bottom.\<close>

definition series_values :: "table \<Rightarrow> nat \<Rightarrow> cell list" where
  "series_values df i = map (\<lambda>r. r ! i) (rows df)"

text \<open>
  \<open>df[name] = f(df[name])\<close> for an element-wise \<open>f\<close> and a label that selects the
  column at position \<open>i\<close>: every row gets the new value in that position.
\<close>

definition map_column :: "table \<Rightarrow> nat \<Rightarrow> (cell \<Rightarrow> cell) \<Rightarrow> table" where
  "map_column df i f = df\<lparr>rows := map (\<lambda>r. r[i := f (r ! i)]) (rows df)\<rparr>"

text \<open>\<open>df[mask]\<close>: the rows whose mask entry is true, in order.\<close>

definition boolean_index :: "table \<Rightarrow> bool list \<Rightarrow> table" where
  "boolean_index df keep = df\<lparr>rows := map fst (filter snd (zip (rows df) keep))\<rparr>"

text \<open>\<open>pd.isna\<close>: both missing markers count as missing.\<close>

fun isna :: "cell \<Rightarrow> bool" where
  "isna NaN = True"
| "isna NaT = True"
| "isna _ = False"

text \<open>
  \<open>df.dropna(subset=[...])\<close> for labels that select the columns at the positions
  \<open>idxs\<close>: a row stays when none of these cells is missing.
\<close>

definition dropna :: "table \<Rightarrow> nat list \<Rightarrow> table" where
  "dropna df idxs = df\<lparr>rows := filter (\<lambda>r. list_all (\<lambda>i. \<not> isna (r ! i)) idxs) (rows df)\<rparr>"

definition and_then :: "error + 'a \<Rightarrow> ('a \<Rightarrow> error + 'b) \<Rightarrow> error + 'b" where
  "and_then x f = (case x of Inl e \<Rightarrow> Inl e | Inr v \<Rightarrow> f v)"


section \<open>The conversions of pandas\<close>

text \<open>
  The script calls three conversions of pandas whose results on text are fixed by the
  library, not by the script. They are parameters of the model:
  \<^item> \<open>text_of\<close>: Python's \<open>str\<close> of a number or a timestamp;
  \<^item> \<open>parse_numeric\<close>: the number \<open>pd.to_numeric\<close> reads from a value that is not
    already a number, \<open>None\<close> when it reads none;
  \<^item> \<open>parse_datetime\<close>: the timestamp \<open>pd.to_datetime\<close> reads from a value that is
    not already a timestamp, \<open>None\<close> when it reads none; it is given the whole column,
    since pandas may infer the format from the other entries.
  What the conversions do on the remaining values is fixed below.
\<close>

record pandas =
  text_of :: "cell \<Rightarrow> string"
  parse_numeric :: "cell \<Rightarrow> rat option"
  parse_datetime :: "cell list \<Rightarrow> cell \<Rightarrow> int option"

text \<open>\<open>.astype(str)\<close> on an object column: text stays, a missing value becomes its name.\<close>

definition astype_str :: "pandas \<Rightarrow> cell \<Rightarrow> string" where
  "astype_str L c =
     (case c of Str s \<Rightarrow> s | NaN \<Rightarrow> ''nan'' | NaT \<Rightarrow> ''NaT'' | _ \<Rightarrow> text_of L c)"

text \<open>\<open>pd.to_numeric(..., errors="coerce")\<close>, element by element.\<close>

definition to_numeric :: "pandas \<Rightarrow> cell \<Rightarrow> cell" where
  "to_numeric L c =
     (case c of
        Num x \<Rightarrow> Num x
      | NaN \<Rightarrow> NaN
      | _ \<Rightarrow> (case parse_numeric L c of Some x \<Rightarrow> Num x | None \<Rightarrow> NaN))"

text \<open>\<open>pd.to_datetime(..., errors="coerce")\<close>, element by element within the column \<open>col\<close>.\<close>

definition to_datetime :: "pandas \<Rightarrow> cell list \<Rightarrow> cell \<Rightarrow> cell" where
  "to_datetime L col c =
     (case c of
        Date d \<Rightarrow> Date d
      | NaN \<Rightarrow> NaT
      | NaT \<Rightarrow> NaT
      | _ \<Rightarrow> (if c = Str [] then NaT
              else case parse_datetime L col c of Some d \<Rightarrow> Date d | None \<Rightarrow> NaT))"


section \<open>clean_categories\<close>

text \<open>
  Lines 37 to 64. The chain of string operations that builds \<open>cat\<close>, for one value; the
  inner function \<open>normalize_category\<close>; and the stage. When the label selects several
  columns, \<open>df["category"]\<close> is a DataFrame, which has no \<open>.str\<close>: \<open>AttributeError\<close>.
\<close>

definition cat :: "pandas \<Rightarrow> cell \<Rightarrow> string" where
  "cat L c = lower (collapse_ws (strip_quotes (strip (astype_str L c))))"

definition normalize_category :: "string \<Rightarrow> string" where
  "normalize_category c =
     (if contains c ''office'' then ''office''
      else if contains c ''electronic'' then ''electronics''
      else if contains c ''kitchen'' then ''kitchen''
      else if contains c ''fitness'' then ''fitness''
      else c)"

definition clean_categories :: "pandas \<Rightarrow> table \<Rightarrow> error + table" where
  "clean_categories L df =
     (if ''category'' \<in> set (columns df) then
        (case getitem df ''category'' of
           Inl e \<Rightarrow> Inl e
         | Inr Frame \<Rightarrow> Inl AttributeError
         | Inr (Series i) \<Rightarrow>
             Inr (map_column df i (\<lambda>c. Str (normalize_category (cat L c)))))
      else Inr df)"


section \<open>handle_missing_values\<close>

text \<open>
  Lines 73 to 80: the product names. As for the categories, a label that selects several
  columns ends in \<open>AttributeError\<close>.
\<close>

definition prodname_text :: "pandas \<Rightarrow> cell \<Rightarrow> string" where
  "prodname_text L c = title (collapse_ws (strip (astype_str L c)))"

definition clean_prodname :: "pandas \<Rightarrow> table \<Rightarrow> error + table" where
  "clean_prodname L df =
     (if ''prodname'' \<in> set (columns df) then
        (case getitem df ''prodname'' of
           Inl e \<Rightarrow> Inl e
         | Inr Frame \<Rightarrow> Inl AttributeError
         | Inr (Series i) \<Rightarrow> Inr (map_column df i (\<lambda>c. Str (prodname_text L c))))
      else Inr df)"

text \<open>
  Lines 83 to 85: price, then qty, then the rows with a missing value go. A label that
  selects several columns makes \<open>pd.to_numeric\<close> raise \<open>TypeError\<close>.
\<close>

definition coerce_column :: "pandas \<Rightarrow> string \<Rightarrow> table \<Rightarrow> error + table" where
  "coerce_column L name df =
     (case getitem df name of
        Inl e \<Rightarrow> Inl e
      | Inr Frame \<Rightarrow> Inl TypeError
      | Inr (Series i) \<Rightarrow> Inr (map_column df i (to_numeric L)))"

definition handle_missing_values :: "pandas \<Rightarrow> table \<Rightarrow> error + table" where
  "handle_missing_values L df =
     and_then (clean_prodname L df) (\<lambda>df.
     and_then (coerce_column L ''price'' df) (\<lambda>df.
     and_then (coerce_column L ''qty'' df) (\<lambda>df.
       Inr (dropna df [get_loc (columns df) ''price'', get_loc (columns df) ''qty'']))))"


section \<open>remove_invalid_rows\<close>

text \<open>
  \<open>x > 0\<close> for one cell: a number compares, \<open>NaN\<close> compares false, text and timestamps
  raise \<open>TypeError\<close>.
\<close>

fun gt_zero :: "cell \<Rightarrow> error + bool" where
  "gt_zero (Num x) = Inr (0 < x)"
| "gt_zero NaN = Inr False"
| "gt_zero _ = Inl TypeError"

text \<open>The comparison over a column stops at the first cell that raises.\<close>

fun gt_zero_all :: "cell list \<Rightarrow> error + bool list" where
  "gt_zero_all [] = Inr []"
| "gt_zero_all (c # cs) =
     and_then (gt_zero c) (\<lambda>b. and_then (gt_zero_all cs) (\<lambda>bs. Inr (b # bs)))"

text \<open>
  \<open>df[name] > 0\<close>. When the label selects several columns the comparison and the mask
  work on a DataFrame; that case is outside the model and marked \<open>Unsupported\<close>.
\<close>

definition column_gt_zero :: "table \<Rightarrow> string \<Rightarrow> error + bool list" where
  "column_gt_zero df name =
     (case getitem df name of
        Inl e \<Rightarrow> Inl e
      | Inr Frame \<Rightarrow> Inl Unsupported
      | Inr (Series i) \<Rightarrow> gt_zero_all (series_values df i))"

definition remove_invalid_rows :: "table \<Rightarrow> error + table" where
  "remove_invalid_rows df =
     and_then (column_gt_zero df ''price'') (\<lambda>p.
     and_then (column_gt_zero df ''qty'') (\<lambda>q.
       Inr (boolean_index df (map (\<lambda>(a, b). a \<and> b) (zip p q)))))"


section \<open>clean_dates\<close>

text \<open>
  Lines 103 to 113. A label that selects several columns makes \<open>pd.to_datetime\<close> raise
  \<open>ValueError\<close>.
\<close>

definition clean_dates :: "pandas \<Rightarrow> table \<Rightarrow> error + table" where
  "clean_dates L df =
     (if ''date_sold'' \<in> set (columns df) then
        (case getitem df ''date_sold'' of
           Inl e \<Rightarrow> Inl e
         | Inr Frame \<Rightarrow> Inl ValueError
         | Inr (Series i) \<Rightarrow>
             Inr (dropna (map_column df i (to_datetime L (series_values df i))) [i]))
      else Inr df)"


section \<open>The main block\<close>

text \<open>
  \<open>df.duplicated()\<close> marks a row when an equal row stands above it; missing values count
  as equal to each other. \<open>df.drop_duplicates()\<close> keeps the unmarked rows.
\<close>

fun duplicated_from :: "cell list list \<Rightarrow> cell list list \<Rightarrow> bool list" where
  "duplicated_from seen [] = []"
| "duplicated_from seen (r # rs) = (r \<in> set seen) # duplicated_from (r # seen) rs"

definition duplicated :: "table \<Rightarrow> bool list" where
  "duplicated df = duplicated_from [] (rows df)"

definition drop_duplicates :: "table \<Rightarrow> table" where
  "drop_duplicates df = boolean_index df (map Not (duplicated df))"

text \<open>
  Lines 120 to 130, from the loaded table to the table that is written: the six stages
  in the order of the script.
\<close>

definition main :: "pandas \<Rightarrow> table \<Rightarrow> error + table" where
  "main L df_raw =
     and_then (clean_categories L (clean_column_names df_raw)) (\<lambda>df_clean.
     and_then (clean_dates L df_clean) (\<lambda>df_clean.
     and_then (handle_missing_values L df_clean) (\<lambda>df_clean.
     and_then (remove_invalid_rows df_clean) (\<lambda>df_clean.
       Inr (drop_duplicates df_clean)))))"


section \<open>Predicates used in the statements\<close>

text \<open>A cell holds a number that is greater than zero.\<close>

fun is_positive :: "cell \<Rightarrow> bool" where
  "is_positive (Num x) = (0 < x)"
| "is_positive _ = False"

text \<open>A cell of a numeric column: a number or the missing number.\<close>

fun is_numeric :: "cell \<Rightarrow> bool" where
  "is_numeric (Num x) = True"
| "is_numeric NaN = True"
| "is_numeric _ = False"




section \<open>A sample run\<close>

text \<open>
  An instance of the library parameter that knows the finitely many values occurring in
  the sample table below, and a raw table as \<open>load_data\<close> could return it.
\<close>

definition sample_lib :: pandas where
  "sample_lib =
     \<lparr>text_of = (\<lambda>c. if c = Num 7 then ''7'' else []),
      parse_numeric = map_of [(Str ''150'', 150), (Str ''2'', 2), (Str ''-10'', - 10)],
      parse_datetime = (\<lambda>col. map_of [(Str ''2024-01-05'', 1704412800000000000)])\<rparr>"

definition sample_raw :: table where
  "sample_raw =
     \<lparr>columns = [''ProdName '', '' CATEGORY '', ''price'', ''qty'', ''Date Sold''],
      rows =
        [[Str '' standing desk '', Str ''Office'', Str ''150'', Str ''2'', Str ''2024-01-05''],
         [Str ''pen set'', Str ''office supplies'', Str ''-10'', Str ''2'', Str ''2024-01-05''],
         [Str ''Standing  Desk'', Str '' OFFICE FURNITURE '', Str ''150'', Str ''2'', Str ''2024-01-05''],
         [Str ''mixer'', Str ''Kitchen'', Str ''150'', Str ''2'', NaN],
         [Str ''yoga mat'', NaN, Str ''150'', Str ''abc'', Str ''2024-01-05''],
         [Str ''blender'', Str ''Kitchen'', Str ''150'', Str ''2'', Str ''2024-01-05'']]\<rparr>"

definition sample_clean :: table where
  "sample_clean =
     \<lparr>columns = [''prodname'', ''category'', ''price'', ''qty'', ''date_sold''],
      rows =
        [[Str ''Standing Desk'', Str ''office'', Num 150, Num 2, Date 1704412800000000000],
         [Str ''Blender'', Str ''kitchen'', Num 150, Num 2, Date 1704412800000000000]]\<rparr>"

text \<open>A table with numeric price and qty columns in which some values are missing.\<close>

definition sample_numeric :: table where
  "sample_numeric =
     \<lparr>columns = [''prodname'', ''price'', ''qty''],
      rows =
        [[Str ''Lamp'', Num 5, Num 1],
         [Str ''Desk'', NaN, Num 2],
         [Str ''Chair'', Num 3, NaN],
         [Str ''Mug'', Num (- 1), Num 2]]\<rparr>"

text \<open>A table with text in its price and qty columns, and one without a qty column.\<close>

definition sample_sales :: table where
  "sample_sales =
     \<lparr>columns = [''prodname'', ''price'', ''qty''],
      rows =
        [[Str '' standing  desk '', Str ''150'', Str ''2''],
         [Str ''pen set'', Str ''150'', Str ''abc''],
         [Str ''mug'', NaN, Str ''2'']]\<rparr>"

definition sample_no_qty :: table where
  "sample_no_qty =
     \<lparr>columns = [''prodname'', ''price''],
      rows = [[Str ''mug'', Str ''150'']]\<rparr>"

text \<open>A table that has none of the optional columns.\<close>

definition sample_bare :: table where
  "sample_bare = \<lparr>columns = [''price'', ''qty''], rows = [[Str ''150'', Str ''2'']]\<rparr>"

text \<open>A table whose date_sold column has a missing, an empty and an unreadable entry.\<close>

definition sample_dated :: table where
  "sample_dated =
     \<lparr>columns = [''prodname'', ''date_sold''],
      rows =
        [[Str ''mixer'', NaN],
         [Str ''desk'', Str ''2024-01-05''],
         [Str ''mug'', Str []],
         [Str ''pen'', Str ''soon'']]\<rparr>"

text \<open>A table in which the first row comes back after another one.\<close>

definition sample_dups :: table where
  "sample_dups =
     \<lparr>columns = [''prodname'', ''qty''],
      rows = [[Str ''Pen Set'', Num 2], [Str ''Mug'', NaN], [Str ''Pen Set'', Num 2], [Str ''Mug'', NaN]]\<rparr>"

text \<open>A table with differently spelled categories and a missing one.\<close>

definition sample_cats :: table where
  "sample_cats =
     \<lparr>columns = [''category'', ''qty''],
      rows =
        [[Str '' OFFICE FURNITURE '', Num 1],
         [Str ''Consumer Electronics'', Num 2],
         [Str ''  Garden   Tools '', Num 3],
         [NaN, Num 4]]\<rparr>"

section \<open>Facts about the text primitives\<close>

lemma isspace_lower_char: "isspace (lower_char c) = isspace c"
  by (auto simp: isspace_def lower_char_def isupper_def Let_def)

lemma lower_char_idem: "lower_char (lower_char c) = lower_char c"
  by (auto simp: lower_char_def isupper_def Let_def)

lemma strip_where_ends:
  "strip_where P s = [] \<or> (\<not> P (hd (strip_where P s)) \<and> \<not> P (last (strip_where P s)))"
proof (cases "strip_where P s = []")
  case True
  then show ?thesis by simp
next
  case False
  define u where "u = dropWhile P s"
  define v where "v = dropWhile P (rev u)"
  have res: "strip_where P s = rev v"
    by (simp add: strip_where_def u_def v_def)
  with False have v: "v \<noteq> []" by simp
  then have hv: "\<not> P (hd v)"
    unfolding v_def by (rule hd_dropWhile)
  from v have u: "u \<noteq> []"
    by (auto simp: v_def)
  then have hu: "\<not> P (hd u)"
    unfolding u_def by (rule hd_dropWhile)
  have "rev u = takeWhile P (rev u) @ v"
    by (simp add: v_def)
  with v have "last (rev u) = last v"
    by (metis last_appendR)
  with u have "last v = hd u"
    by (simp add: last_rev)
  with hu hv v res show ?thesis
    by (simp add: hd_rev last_rev)
qed

lemma strip_where_id:
  assumes "s = [] \<or> (\<not> P (hd s) \<and> \<not> P (last s))"
  shows "strip_where P s = s"
proof (cases "s = []")
  case True
  then show ?thesis by (simp add: strip_where_def)
next
  case False
  with assms have h: "\<not> P (hd s)" and l: "\<not> P (last s)" by auto
  from False h have 1: "dropWhile P s = s"
    by (simp add: dropWhile_eq_self_iff)
  from False l have 2: "dropWhile P (rev s) = rev s"
    by (simp add: dropWhile_eq_self_iff hd_rev)
  show ?thesis by (simp add: strip_where_def 1 2)
qed

lemma lower_char_underscore: "lower_char (CHR ''_'') = CHR ''_''"
  by (simp add: lower_char_def isupper_def)

lemma replace_lower_idem:
  "replace_char (CHR '' '') (CHR ''_'') (lower (replace_char (CHR '' '') (CHR ''_'') (lower u)))
   = replace_char (CHR '' '') (CHR ''_'') (lower u)"
  by (induction u) (simp_all add: replace_char_def lower_def lower_char_underscore lower_char_idem)

lemma replace_lower_not_space:
  "\<not> isspace c \<Longrightarrow> \<not> isspace (if lower_char c = CHR '' '' then CHR ''_'' else lower_char c)"
  by (auto simp: isspace_lower_char) (auto simp: isspace_def)

lemma clean_name_ends:
  "clean_name s = [] \<or> (\<not> isspace (hd (clean_name s)) \<and> \<not> isspace (last (clean_name s)))"
proof (cases "strip s = []")
  case True
  then show ?thesis
    by (simp add: clean_name_def replace_char_def lower_def)
next
  case False
  define h where "h = (\<lambda>c. if lower_char c = CHR '' '' then CHR ''_'' else lower_char c)"
  have eq: "clean_name s = map h (strip s)"
    by (simp add: clean_name_def replace_char_def lower_def h_def)
  from False strip_where_ends [of isspace s]
  have e: "\<not> isspace (hd (strip s))" "\<not> isspace (last (strip s))"
    by (simp_all add: strip_def)
  have "\<not> isspace (h (hd (strip s)))" "\<not> isspace (h (last (strip s)))"
    unfolding h_def by (rule replace_lower_not_space, rule e(1)) (rule replace_lower_not_space, rule e(2))
  with False show ?thesis
    by (simp add: eq hd_map last_map)
qed

lemma clean_name_idem: "clean_name (clean_name s) = clean_name s"
proof -
  have "strip (clean_name s) = clean_name s"
    unfolding strip_def by (rule strip_where_id) (rule clean_name_ends)
  then have "clean_name (clean_name s)
      = replace_char (CHR '' '') (CHR ''_'') (lower (clean_name s))"
    by (simp only: clean_name_def [of "clean_name s"])
  also have "\<dots> = clean_name s"
    unfolding clean_name_def by (rule replace_lower_idem)
  finally show ?thesis .
qed


section \<open>Facts about tables\<close>

lemma and_then_Inr:
  "and_then x f = Inr y \<longleftrightarrow> (\<exists>v. x = Inr v \<and> f v = Inr y)"
  by (cases x) (simp_all add: and_then_def)

lemma and_then_Inl:
  "and_then x f = Inl e \<longleftrightarrow> (x = Inl e \<or> (\<exists>v. x = Inr v \<and> f v = Inl e))"
  by (cases x) (simp_all add: and_then_def)

lemma get_loc_less: "name \<in> set cs \<Longrightarrow> get_loc cs name < length cs"
  by (induction cs) auto

lemma get_loc_nth: "name \<in> set cs \<Longrightarrow> cs ! get_loc cs name = name"
  by (induction cs) auto

lemma getitem_Series:
  "getitem df name = Inr (Series i) \<longleftrightarrow>
     (name \<in> set (columns df) \<and> count_list (columns df) name = 1 \<and> i = get_loc (columns df) name)"
  by (auto simp: getitem_def)

lemma getitem_Frame:
  "getitem df name = Inr Frame \<longleftrightarrow>
     (name \<in> set (columns df) \<and> count_list (columns df) name \<noteq> 1)"
  by (auto simp: getitem_def)

lemma getitem_Inl:
  "getitem df name = Inl e \<longleftrightarrow> (name \<notin> set (columns df) \<and> e = KeyError name)"
  by (auto simp: getitem_def)

lemma get_loc_neq:
  "a \<in> set cs \<Longrightarrow> b \<in> set cs \<Longrightarrow> a \<noteq> b \<Longrightarrow> get_loc cs a \<noteq> get_loc cs b"
  by (metis get_loc_nth)

lemma columns_map_column [simp]: "columns (map_column df i f) = columns df"
  by (simp add: map_column_def)

lemma columns_dropna [simp]: "columns (dropna df idxs) = columns df"
  by (simp add: dropna_def)

lemma columns_boolean_index [simp]: "columns (boolean_index df keep) = columns df"
  by (simp add: boolean_index_def)

lemma rows_map_column: "rows (map_column df i f) = map (\<lambda>r. r[i := f (r ! i)]) (rows df)"
  by (simp add: map_column_def)

lemma rows_dropna:
  "rows (dropna df idxs) = filter (\<lambda>r. list_all (\<lambda>i. \<not> isna (r ! i)) idxs) (rows df)"
  by (simp add: dropna_def)

lemma filter_by_mask: "map fst (filter snd (zip xs (map P xs))) = filter P xs"
  by (induction xs) auto

lemma rows_boolean_index_map:
  "rows (boolean_index df (map P (rows df))) = filter P (rows df)"
  by (simp add: boolean_index_def filter_by_mask)

lemma set_rows_boolean_index: "set (rows (boolean_index df keep)) \<subseteq> set (rows df)"
  by (auto simp: boolean_index_def dest: set_zip_leftD)

lemma getitem_map_column [simp]: "getitem (map_column df i f) name = getitem df name"
  by (simp add: getitem_def)

lemma getitem_dropna [simp]: "getitem (dropna df idxs) name = getitem df name"
  by (simp add: getitem_def)

lemma gt_zero_all_Inr:
  "gt_zero_all cs = Inr bs \<Longrightarrow> bs = map is_positive cs \<and> list_all (\<lambda>c. c = NaN \<or> (\<exists>x. c = Num x)) cs"
proof (induction cs arbitrary: bs)
  case Nil
  then show ?case by simp
next
  case (Cons c cs)
  then show ?case
    by (cases c) (auto simp: and_then_Inr)
qed

lemma gt_zero_all_numeric:
  "list_all (\<lambda>c. c = NaN \<or> (\<exists>x. c = Num x)) cs \<Longrightarrow> gt_zero_all cs = Inr (map is_positive cs)"
  by (induction cs) (auto simp: and_then_def)

lemma column_gt_zero_Inr:
  assumes "column_gt_zero df name = Inr p"
  shows "p = map (\<lambda>r. is_positive (r ! get_loc (columns df) name)) (rows df)"
proof -
  from assms obtain i where g: "getitem df name = Inr (Series i)"
    and a: "gt_zero_all (series_values df i) = Inr p"
    by (auto simp: column_gt_zero_def split: sum.splits selection.splits)
  from g have "i = get_loc (columns df) name"
    by (simp add: getitem_Series)
  with gt_zero_all_Inr [OF a] show ?thesis
    by (simp add: series_values_def comp_def)
qed

lemma remove_invalid_rows_Inr:
  assumes "remove_invalid_rows df = Inr out"
  shows "columns out = columns df"
    and "rows out = filter (\<lambda>r. is_positive (r ! get_loc (columns df) ''price'')
                             \<and> is_positive (r ! get_loc (columns df) ''qty'')) (rows df)"
proof -
  from assms obtain p q where p: "column_gt_zero df ''price'' = Inr p"
    and q: "column_gt_zero df ''qty'' = Inr q"
    and out: "out = boolean_index df (map (\<lambda>(a, b). a \<and> b) (zip p q))"
    by (auto simp: remove_invalid_rows_def and_then_Inr)
  let ?P = "\<lambda>r. is_positive (r ! get_loc (columns df) ''price'')
                 \<and> is_positive (r ! get_loc (columns df) ''qty'')"
  have "map (\<lambda>(a, b). a \<and> b) (zip p q) = map ?P (rows df)"
    unfolding column_gt_zero_Inr [OF p] column_gt_zero_Inr [OF q]
    by (simp add: zip_map_map zip_same_conv_map comp_def)
  with out have o: "out = boolean_index df (map ?P (rows df))" by simp
  show "columns out = columns df" by (simp add: o)
  show "rows out = filter ?P (rows df)"
    unfolding o by (rule rows_boolean_index_map)
qed

lemma is_positive_iff: "is_positive c \<longleftrightarrow> (\<exists>p. c = Num p \<and> 0 < p)"
  by (cases c) auto

lemma columns_drop_duplicates [simp]: "columns (drop_duplicates df) = columns df"
  by (simp add: drop_duplicates_def)

lemma set_rows_drop_duplicates: "set (rows (drop_duplicates df)) \<subseteq> set (rows df)"
  unfolding drop_duplicates_def by (rule set_rows_boolean_index)

lemma main_Inr:
  assumes "main L df_raw = Inr out"
  obtains d2 d3 d4 d5 where
    "clean_categories L (clean_column_names df_raw) = Inr d2"
    "clean_dates L d2 = Inr d3"
    "handle_missing_values L d3 = Inr d4"
    "remove_invalid_rows d4 = Inr d5"
    "out = drop_duplicates d5"
  using assms unfolding main_def and_then_Inr by blast

lemma main_sample: "main sample_lib sample_raw = Inr sample_clean"
  by code_simp

lemma is_numeric_iff: "is_numeric c \<longleftrightarrow> (c = NaN \<or> (\<exists>x. c = Num x))"
  by (cases c) auto

lemma column_gt_zero_numeric:
  assumes "getitem df name = Inr (Series i)"
    and "\<forall>r \<in> set (rows df). is_numeric (r ! i)"
  shows "column_gt_zero df name = Inr (map (\<lambda>r. is_positive (r ! i)) (rows df))"
proof -
  from assms(2) have "list_all (\<lambda>c. c = NaN \<or> (\<exists>x. c = Num x)) (series_values df i)"
    by (simp add: series_values_def list_all_iff is_numeric_iff)
  then have "gt_zero_all (series_values df i) = Inr (map is_positive (series_values df i))"
    by (rule gt_zero_all_numeric)
  with assms(1) show ?thesis
    by (simp add: column_gt_zero_def series_values_def comp_def)
qed

lemma wf_map_column: "wf_table df \<Longrightarrow> wf_table (map_column df i f)"
  by (simp add: wf_table_def map_column_def list_all_iff)

lemma wf_dropna: "wf_table df \<Longrightarrow> wf_table (dropna df idxs)"
  by (simp add: wf_table_def dropna_def list_all_iff)

lemma wf_boolean_index: "wf_table df \<Longrightarrow> wf_table (boolean_index df keep)"
  using set_rows_boolean_index [of df keep]
  by (auto simp: wf_table_def list_all_iff)

lemma wf_row_length: "wf_table df \<Longrightarrow> r \<in> set (rows df) \<Longrightarrow> length r = length (columns df)"
  by (simp add: wf_table_def list_all_iff)

lemma getitem_Series_less: "getitem df name = Inr (Series i) \<Longrightarrow> i < length (columns df)"
  by (simp add: getitem_Series get_loc_less)

lemma getitem_Series_neq:
  "getitem df a = Inr (Series i) \<Longrightarrow> getitem df b = Inr (Series j) \<Longrightarrow> a \<noteq> b \<Longrightarrow> i \<noteq> j"
  by (simp add: getitem_Series get_loc_neq)

lemma coerce_column_Series:
  "getitem df name = Inr (Series i) \<Longrightarrow> coerce_column L name df = Inr (map_column df i (to_numeric L))"
  by (simp add: coerce_column_def)

lemma coerce_column_absent:
  "name \<notin> set (columns df) \<Longrightarrow> coerce_column L name df = Inl (KeyError name)"
  by (simp add: coerce_column_def getitem_def)

lemma coerce_column_columns: "coerce_column L name df = Inr d \<Longrightarrow> columns d = columns df"
  by (auto simp: coerce_column_def split: sum.splits selection.splits)

lemma clean_prodname_columns: "clean_prodname L df = Inr d \<Longrightarrow> columns d = columns df"
  by (auto simp: clean_prodname_def split: if_splits sum.splits selection.splits)

lemma clean_prodname_wf: "clean_prodname L df = Inr d \<Longrightarrow> wf_table df \<Longrightarrow> wf_table d"
  by (auto simp: clean_prodname_def wf_map_column split: if_splits sum.splits selection.splits)

lemma getitem_cong_columns: "columns d = columns df \<Longrightarrow> getitem d name = getitem df name"
  by (simp add: getitem_def)

lemma to_numeric_cases: "to_numeric L c = NaN \<or> (\<exists>x. to_numeric L c = Num x)"
  by (cases c) (auto simp: to_numeric_def split: option.splits)

lemma isna_to_numeric: "isna (to_numeric L c) \<longleftrightarrow> to_numeric L c = NaN"
  using to_numeric_cases [of L c] by auto

lemma table_eqI: "columns a = columns b \<Longrightarrow> rows a = rows b \<Longrightarrow> a = (b :: table)"
  by simp

lemma coerce_price_qty:
  assumes wf: "wf_table d"
    and p: "getitem d ''price'' = Inr (Series i)"
    and q: "getitem d ''qty'' = Inr (Series j)"
  shows "and_then (coerce_column L ''price'' d) (\<lambda>df.
         and_then (coerce_column L ''qty'' df) (\<lambda>df.
           Inr (dropna df [get_loc (columns df) ''price'', get_loc (columns df) ''qty''])))
         = Inr (d\<lparr>rows := map (\<lambda>r. r[i := to_numeric L (r ! i), j := to_numeric L (r ! j)])
                    (filter (\<lambda>r. to_numeric L (r ! i) \<noteq> NaN \<and> to_numeric L (r ! j) \<noteq> NaN) (rows d))\<rparr>)"
proof -
  let ?w = "\<lambda>r. r[i := to_numeric L (r ! i), j := to_numeric L (r ! j)]"
  have ij: "i \<noteq> j"
    using getitem_Series_neq [OF p q] by simp
  have il: "i < length (columns d)" and jl: "j < length (columns d)"
    using p q by (simp_all add: getitem_Series_less)
  have gi: "get_loc (columns d) ''price'' = i" and gj: "get_loc (columns d) ''qty'' = j"
    using p q by (simp_all add: getitem_Series)
  define d1 where "d1 = map_column d i (to_numeric L)"
  define d2 where "d2 = map_column d1 j (to_numeric L)"
  have 1: "coerce_column L ''price'' d = Inr d1"
    unfolding d1_def using p by (rule coerce_column_Series)
  have "getitem d1 ''qty'' = Inr (Series j)"
    using q by (simp add: d1_def)
  then have 2: "coerce_column L ''qty'' d1 = Inr d2"
    unfolding d2_def by (rule coerce_column_Series)
  have r2: "rows d2 = map ?w (rows d)"
    using ij by (simp add: d2_def d1_def rows_map_column)
  have c2: "columns d2 = columns d"
    by (simp add: d2_def d1_def)
  have keep: "(\<not> isna (?w r ! i) \<and> \<not> isna (?w r ! j))
      = (to_numeric L (r ! i) \<noteq> NaN \<and> to_numeric L (r ! j) \<noteq> NaN)"
    if "r \<in> set (rows d)" for r
  proof -
    from that wf have "length r = length (columns d)"
      by (simp add: wf_row_length)
    with il jl ij show ?thesis
      by (simp add: isna_to_numeric)
  qed
  have "dropna d2 [i, j] = d\<lparr>rows := map ?w
          (filter (\<lambda>r. to_numeric L (r ! i) \<noteq> NaN \<and> to_numeric L (r ! j) \<noteq> NaN) (rows d))\<rparr>"
  proof -
    have "rows (dropna d2 [i, j]) = filter (\<lambda>r. \<not> isna (r ! i) \<and> \<not> isna (r ! j)) (map ?w (rows d))"
      by (simp add: rows_dropna r2)
    also have "\<dots> = map ?w (filter (\<lambda>r. \<not> isna (?w r ! i) \<and> \<not> isna (?w r ! j)) (rows d))"
      by (simp add: filter_map comp_def)
    also have "\<dots> = map ?w
          (filter (\<lambda>r. to_numeric L (r ! i) \<noteq> NaN \<and> to_numeric L (r ! j) \<noteq> NaN) (rows d))"
      by (rule arg_cong [where f = "map ?w"], rule filter_cong) (simp_all only: keep)
    finally have "rows (dropna d2 [i, j]) = map ?w
          (filter (\<lambda>r. to_numeric L (r ! i) \<noteq> NaN \<and> to_numeric L (r ! j) \<noteq> NaN) (rows d))" .
    moreover have "columns (dropna d2 [i, j]) = columns d"
      by (simp add: c2)
    ultimately show ?thesis
      by (intro table_eqI) simp_all
  qed
  then show ?thesis
    by (simp add: 1 2 and_then_def c2 gi gj)
qed

lemma handle_missing_values_absent:
  assumes "''price'' \<notin> set (columns df) \<or> ''qty'' \<notin> set (columns df)"
  shows "\<exists>e. handle_missing_values L df = Inl e"
proof (cases "clean_prodname L df")
  case (Inl e)
  then show ?thesis
    by (simp add: handle_missing_values_def and_then_def)
next
  case (Inr d)
  then have cd: "columns d = columns df"
    by (rule clean_prodname_columns)
  show ?thesis
  proof (cases "coerce_column L ''price'' d")
    case (Inl e)
    with Inr show ?thesis
      by (simp add: handle_missing_values_def and_then_def)
  next
    case d1: (Inr d1)
    then have "columns d1 = columns df"
      using cd by (simp add: coerce_column_columns)
    moreover have "''price'' \<in> set (columns df)"
      using d1 cd by (auto simp: coerce_column_def getitem_def split: if_splits)
    ultimately have "''qty'' \<notin> set (columns d1)"
      using assms by simp
    then have "coerce_column L ''qty'' d1 = Inl (KeyError ''qty'')"
      by (rule coerce_column_absent)
    with Inr d1 show ?thesis
      by (simp add: handle_missing_values_def and_then_def)
  qed
qed

lemma handle_missing_values_present:
  assumes "wf_table df"
    and "clean_prodname L df = Inr d"
    and "getitem df ''price'' = Inr (Series i)"
    and "getitem df ''qty'' = Inr (Series j)"
  shows "handle_missing_values L df =
           Inr (d\<lparr>rows := map (\<lambda>r. r[i := to_numeric L (r ! i), j := to_numeric L (r ! j)])
                  (filter (\<lambda>r. to_numeric L (r ! i) \<noteq> NaN \<and> to_numeric L (r ! j) \<noteq> NaN) (rows d))\<rparr>)"
proof -
  have cd: "columns d = columns df"
    using assms(2) by (rule clean_prodname_columns)
  have wf: "wf_table d"
    using assms(2,1) by (rule clean_prodname_wf)
  have p: "getitem d ''price'' = Inr (Series i)" and q: "getitem d ''qty'' = Inr (Series j)"
    using assms(3,4) by (simp_all add: getitem_cong_columns [OF cd])
  show ?thesis
    unfolding handle_missing_values_def
    by (simp add: assms(2) and_then_def [of "Inr d"] coerce_price_qty [OF wf p q])
qed

lemma handle_missing_values_sample_no_qty:
  "handle_missing_values sample_lib sample_no_qty = Inl (KeyError ''qty'')"
  by code_simp

lemma handle_missing_values_sample_sales:
  "handle_missing_values sample_lib sample_sales =
     Inr \<lparr>columns = [''prodname'', ''price'', ''qty''],
          rows = [[Str ''Standing Desk'', Num 150, Num 2]]\<rparr>"
  by code_simp

lemma to_datetime_cases: "to_datetime L col c = NaT \<or> (\<exists>d. to_datetime L col c = Date d)"
  by (cases c) (auto simp: to_datetime_def split: option.splits)

lemma isna_to_datetime: "isna (to_datetime L col c) \<longleftrightarrow> to_datetime L col c = NaT"
  using to_datetime_cases [of L col c] by auto

lemma to_datetime_missing:
  "to_datetime L col NaN = NaT" "to_datetime L col NaT = NaT" "to_datetime L col (Str []) = NaT"
  by (simp_all add: to_datetime_def)

lemma clean_dates_Series:
  assumes wf: "wf_table df"
    and g: "getitem df ''date_sold'' = Inr (Series i)"
  shows "clean_dates L df =
           Inr (df\<lparr>rows := map (\<lambda>r. r[i := to_datetime L (series_values df i) (r ! i)])
                  (filter (\<lambda>r. to_datetime L (series_values df i) (r ! i) \<noteq> NaT) (rows df))\<rparr>)"
proof -
  let ?f = "to_datetime L (series_values df i)"
  let ?w = "\<lambda>r. r[i := ?f (r ! i)]"
  have il: "i < length (columns df)"
    using g by (rule getitem_Series_less)
  have mem: "''date_sold'' \<in> set (columns df)"
    using g by (simp add: getitem_Series)
  have keep: "(\<not> isna (?w r ! i)) = (?f (r ! i) \<noteq> NaT)" if "r \<in> set (rows df)" for r
  proof -
    from that wf have "length r = length (columns df)"
      by (simp add: wf_row_length)
    with il show ?thesis
      by (simp add: isna_to_datetime)
  qed
  have "rows (dropna (map_column df i ?f) [i]) = filter (\<lambda>r. \<not> isna (r ! i)) (map ?w (rows df))"
    by (simp add: rows_dropna rows_map_column)
  also have "\<dots> = map ?w (filter (\<lambda>r. \<not> isna (?w r ! i)) (rows df))"
    by (simp add: filter_map comp_def)
  also have "\<dots> = map ?w (filter (\<lambda>r. ?f (r ! i) \<noteq> NaT) (rows df))"
    by (rule arg_cong [where f = "map ?w"], rule filter_cong) (simp_all only: keep)
  finally have "dropna (map_column df i ?f) [i]
      = df\<lparr>rows := map ?w (filter (\<lambda>r. ?f (r ! i) \<noteq> NaT) (rows df))\<rparr>"
    by (intro table_eqI) simp_all
  then show ?thesis
    by (simp add: clean_dates_def mem g)
qed

lemma get_loc_neq_left: "a \<in> set cs \<Longrightarrow> a \<noteq> b \<Longrightarrow> get_loc cs a \<noteq> get_loc cs b"
  by (induction cs) auto

lemma clean_column_names_wf: "wf_table df \<Longrightarrow> wf_table (clean_column_names df)"
  by (simp add: wf_table_def clean_column_names_def)

lemma clean_categories_columns: "clean_categories L df = Inr d \<Longrightarrow> columns d = columns df"
  by (auto simp: clean_categories_def split: if_splits sum.splits selection.splits)

lemma clean_categories_wf: "clean_categories L df = Inr d \<Longrightarrow> wf_table df \<Longrightarrow> wf_table d"
  by (auto simp: clean_categories_def wf_map_column split: if_splits sum.splits selection.splits)

lemma clean_dates_columns: "clean_dates L df = Inr d \<Longrightarrow> columns d = columns df"
  by (auto simp: clean_dates_def split: if_splits sum.splits selection.splits)

lemma clean_dates_wf: "clean_dates L df = Inr d \<Longrightarrow> wf_table df \<Longrightarrow> wf_table d"
  by (auto simp: clean_dates_def wf_map_column wf_dropna split: if_splits sum.splits selection.splits)

lemma clean_dates_parsed:
  assumes run: "clean_dates L df = Inr d"
    and wf: "wf_table df"
    and mem: "''date_sold'' \<in> set (columns df)"
    and r: "r \<in> set (rows d)"
  shows "\<exists>t. r ! get_loc (columns df) ''date_sold'' = Date t"
proof -
  from run mem obtain i where g: "getitem df ''date_sold'' = Inr (Series i)"
    by (auto simp: clean_dates_def split: sum.splits selection.splits)
  then have i: "i = get_loc (columns df) ''date_sold''" and il: "i < length (columns df)"
    by (simp_all add: getitem_Series get_loc_less)
  let ?f = "to_datetime L (series_values df i)"
  from run r clean_dates_Series [OF wf g, of L]
  obtain r0 where r0: "r0 \<in> set (rows df)" and k: "?f (r0 ! i) \<noteq> NaT"
    and eq: "r = r0[i := ?f (r0 ! i)]"
    by auto
  from r0 wf have "length r0 = length (columns df)"
    by (simp add: wf_row_length)
  with il eq have "r ! i = ?f (r0 ! i)" by simp
  with k to_datetime_cases [of L "series_values df i" "r0 ! i"] i show ?thesis
    by auto
qed

lemma map_column_other:
  "r' \<in> set (rows (map_column d k f)) \<Longrightarrow> \<exists>r \<in> set (rows d). \<forall>n. n \<noteq> k \<longrightarrow> r' ! n = r ! n"
  by (auto simp: rows_map_column)

lemma clean_prodname_other:
  assumes "clean_prodname L d = Inr d'" and "r' \<in> set (rows d')"
  shows "\<exists>r \<in> set (rows d). \<forall>n. n \<noteq> get_loc (columns d) ''prodname'' \<longrightarrow> r' ! n = r ! n"
proof (cases "''prodname'' \<in> set (columns d)")
  case True
  with assms(1) have "d' = map_column d (get_loc (columns d) ''prodname'') (\<lambda>c. Str (prodname_text L c))"
    by (auto simp: clean_prodname_def getitem_def split: if_splits)
  with assms(2) show ?thesis
    using map_column_other by blast
next
  case False
  with assms show ?thesis
    by (auto simp: clean_prodname_def)
qed

lemma coerce_column_other:
  assumes "coerce_column L name d = Inr d'" and "r' \<in> set (rows d')"
  shows "\<exists>r \<in> set (rows d). \<forall>n. n \<noteq> get_loc (columns d) name \<longrightarrow> r' ! n = r ! n"
proof -
  from assms(1) have "d' = map_column d (get_loc (columns d) name) (to_numeric L)"
    by (auto simp: coerce_column_def getitem_def split: if_splits)
  with assms(2) show ?thesis
    using map_column_other by blast
qed

lemma handle_missing_values_Inr:
  assumes "handle_missing_values L d = Inr out"
  obtains d1 d2 d3 where "clean_prodname L d = Inr d1"
    "coerce_column L ''price'' d1 = Inr d2"
    "coerce_column L ''qty'' d2 = Inr d3"
    "out = dropna d3 [get_loc (columns d3) ''price'', get_loc (columns d3) ''qty'']"
  using assms unfolding handle_missing_values_def and_then_Inr by blast

lemma handle_missing_values_columns:
  assumes "handle_missing_values L d = Inr out"
  shows "columns out = columns d"
proof -
  from assms obtain d1 d2 d3 where "clean_prodname L d = Inr d1"
    "coerce_column L ''price'' d1 = Inr d2"
    "coerce_column L ''qty'' d2 = Inr d3"
    "out = dropna d3 [get_loc (columns d3) ''price'', get_loc (columns d3) ''qty'']"
    by (rule handle_missing_values_Inr)
  then show ?thesis
    by (simp add: clean_prodname_columns coerce_column_columns)
qed

lemma handle_missing_values_other:
  assumes run: "handle_missing_values L d = Inr out"
    and r': "r' \<in> set (rows out)"
    and n: "n \<noteq> get_loc (columns d) ''prodname''" "n \<noteq> get_loc (columns d) ''price''"
      "n \<noteq> get_loc (columns d) ''qty''"
  shows "\<exists>r \<in> set (rows d). r' ! n = r ! n"
proof -
  from run obtain d1 d2 d3 where 1: "clean_prodname L d = Inr d1"
    and 2: "coerce_column L ''price'' d1 = Inr d2"
    and 3: "coerce_column L ''qty'' d2 = Inr d3"
    and 4: "out = dropna d3 [get_loc (columns d3) ''price'', get_loc (columns d3) ''qty'']"
    by (rule handle_missing_values_Inr)
  have c1: "columns d1 = columns d" using 1 by (rule clean_prodname_columns)
  have c2: "columns d2 = columns d" using 2 c1 by (simp add: coerce_column_columns)
  from r' 4 have "r' \<in> set (rows d3)"
    by (simp add: rows_dropna)
  with coerce_column_other [OF 3] n(3) c2
  obtain r2 where r2: "r2 \<in> set (rows d2)" and e3: "r' ! n = r2 ! n"
    by auto
  with coerce_column_other [OF 2] n(2) c1
  obtain r1 where r1: "r1 \<in> set (rows d1)" and e2: "r2 ! n = r1 ! n"
    by auto
  with clean_prodname_other [OF 1] n(1)
  obtain r0 where "r0 \<in> set (rows d)" and "r1 ! n = r0 ! n"
    by auto
  with e3 e2 show ?thesis by auto
qed

lemma rows_remove_invalid_rows_subset:
  "remove_invalid_rows d = Inr out \<Longrightarrow> set (rows out) \<subseteq> set (rows d)"
  by (simp add: remove_invalid_rows_Inr(2))

lemma main_columns:
  assumes "main L df_raw = Inr out"
  shows "columns out = map clean_name (columns df_raw)"
proof -
  from assms obtain d2 d3 d4 d5 where
    "clean_categories L (clean_column_names df_raw) = Inr d2"
    "clean_dates L d2 = Inr d3"
    "handle_missing_values L d3 = Inr d4"
    "remove_invalid_rows d4 = Inr d5"
    "out = drop_duplicates d5"
    by (rule main_Inr)
  then show ?thesis
    by (simp add: clean_categories_columns clean_dates_columns handle_missing_values_columns
        remove_invalid_rows_Inr(1) clean_column_names_def)
qed

lemma main_date_sold:
  assumes run: "main L df_raw = Inr out"
    and wf: "wf_table df_raw"
    and mem: "''date_sold'' \<in> set (columns out)"
    and r: "r \<in> set (rows out)"
  shows "\<exists>t. r ! get_loc (columns out) ''date_sold'' = Date t"
proof -
  from run obtain d2 d3 d4 d5 where
    2: "clean_categories L (clean_column_names df_raw) = Inr d2"
    and 3: "clean_dates L d2 = Inr d3"
    and 4: "handle_missing_values L d3 = Inr d4"
    and 5: "remove_invalid_rows d4 = Inr d5"
    and 6: "out = drop_duplicates d5"
    by (rule main_Inr)
  have c3: "columns d3 = columns d2" using 3 by (rule clean_dates_columns)
  have c4: "columns d4 = columns d3" using 4 by (rule handle_missing_values_columns)
  have c5: "columns d5 = columns d4" using 5 by (rule remove_invalid_rows_Inr(1))
  have co: "columns out = columns d2" by (simp add: 6 c5 c4 c3)
  have wf2: "wf_table d2"
    using 2 wf by (simp add: clean_categories_wf clean_column_names_wf)
  let ?i = "get_loc (columns d2) ''date_sold''"
  from mem co have m2: "''date_sold'' \<in> set (columns d2)" by simp
  from r 6 have "r \<in> set (rows d5)"
    using set_rows_drop_duplicates by blast
  with 5 have "r \<in> set (rows d4)"
    using rows_remove_invalid_rows_subset by blast
  moreover have "?i \<noteq> get_loc (columns d3) ''prodname''" "?i \<noteq> get_loc (columns d3) ''price''"
    "?i \<noteq> get_loc (columns d3) ''qty''"
    using m2 by (simp_all add: c3 get_loc_neq_left)
  ultimately obtain r3 where r3: "r3 \<in> set (rows d3)" and e: "r ! ?i = r3 ! ?i"
    using handle_missing_values_other [OF 4] by blast
  from clean_dates_parsed [OF 3 wf2 m2 r3] e co show ?thesis
    by simp
qed

lemma keep_unmarked_from:
  "map fst (filter snd (zip rs (map Not (duplicated_from seen rs))))
   = map (\<lambda>i. rs ! i) (filter (\<lambda>i. rs ! i \<notin> set seen \<union> set (take i rs)) [0..<length rs])"
proof (induction rs arbitrary: seen)
  case Nil
  then show ?case by simp
next
  case (Cons r rs)
  have upt: "[0..<length (r # rs)] = 0 # map Suc [0..<length rs]"
    by (simp add: upt_conv_Cons map_Suc_upt del: upt_Suc)
  have tl: "map (\<lambda>i. (r # rs) ! i)
              (filter (\<lambda>i. (r # rs) ! i \<notin> set seen \<union> set (take i (r # rs))) (map Suc [0..<length rs]))
            = map (\<lambda>i. rs ! i) (filter (\<lambda>i. rs ! i \<notin> set (r # seen) \<union> set (take i rs)) [0..<length rs])"
    by (simp add: filter_map comp_def conj_ac)
  show ?case
    unfolding upt using Cons.IH [of "r # seen"] tl
    by simp
qed

lemma rows_drop_duplicates:
  "rows (drop_duplicates df)
   = map (\<lambda>i. rows df ! i) (filter (\<lambda>i. rows df ! i \<notin> set (take i (rows df))) [0..<length (rows df)])"
  using keep_unmarked_from [of "rows df" "[]"]
  by (simp add: drop_duplicates_def boolean_index_def duplicated_def)

lemma keep_unmarked_distinct:
  "distinct (map fst (filter snd (zip rs (map Not (duplicated_from seen rs)))))
   \<and> set (map fst (filter snd (zip rs (map Not (duplicated_from seen rs))))) = set rs - set seen"
proof (induction rs arbitrary: seen)
  case Nil
  then show ?case by simp
next
  case (Cons r rs)
  from Cons.IH [of "r # seen"] show ?case
    by auto
qed

lemma distinct_rows_drop_duplicates: "distinct (rows (drop_duplicates df))"
  using keep_unmarked_distinct [of "rows df" "[]"]
  by (simp add: drop_duplicates_def boolean_index_def duplicated_def)

lemma set_rows_drop_duplicates_eq: "set (rows (drop_duplicates df)) = set (rows df)"
  using keep_unmarked_distinct [of "rows df" "[]"]
  by (simp add: drop_duplicates_def boolean_index_def duplicated_def)

lemma coerce_column_wf: "coerce_column L name df = Inr d \<Longrightarrow> wf_table df \<Longrightarrow> wf_table d"
  by (auto simp: coerce_column_def wf_map_column split: sum.splits selection.splits)

lemma handle_missing_values_wf:
  assumes "handle_missing_values L d = Inr out" and "wf_table d"
  shows "wf_table out"
proof -
  from assms(1) obtain d1 d2 d3 where "clean_prodname L d = Inr d1"
    "coerce_column L ''price'' d1 = Inr d2"
    "coerce_column L ''qty'' d2 = Inr d3"
    "out = dropna d3 [get_loc (columns d3) ''price'', get_loc (columns d3) ''qty'']"
    by (rule handle_missing_values_Inr)
  with assms(2) show ?thesis
    by (simp add: clean_prodname_wf coerce_column_wf wf_dropna)
qed

lemma remove_invalid_rows_wf:
  assumes "remove_invalid_rows d = Inr out" and "wf_table d"
  shows "wf_table out"
  using assms remove_invalid_rows_Inr [OF assms(1)]
  by (simp add: wf_table_def list_all_iff)

lemma drop_duplicates_wf: "wf_table df \<Longrightarrow> wf_table (drop_duplicates df)"
  unfolding drop_duplicates_def by (rule wf_boolean_index)

lemma main_wf:
  assumes "main L df_raw = Inr out" and "wf_table df_raw"
  shows "wf_table out"
proof -
  from assms(1) obtain d2 d3 d4 d5 where
    "clean_categories L (clean_column_names df_raw) = Inr d2"
    "clean_dates L d2 = Inr d3"
    "handle_missing_values L d3 = Inr d4"
    "remove_invalid_rows d4 = Inr d5"
    "out = drop_duplicates d5"
    by (rule main_Inr)
  with assms(2) show ?thesis
    by (simp add: clean_column_names_wf clean_categories_wf clean_dates_wf
        handle_missing_values_wf remove_invalid_rows_wf drop_duplicates_wf)
qed

lemma main_distinct: "main L df_raw = Inr out \<Longrightarrow> distinct (rows out)"
  by (erule main_Inr) (simp add: distinct_rows_drop_duplicates)

lemma rows_differ_in_column:
  assumes wf: "wf_table t" and d: "distinct (rows t)"
    and ab: "a < b" "b < length (rows t)"
  shows "\<exists>k < length (columns t). rows t ! a ! k \<noteq> rows t ! b ! k"
proof -
  from ab d have ne: "rows t ! a \<noteq> rows t ! b"
    by (simp add: nth_eq_iff_index_eq)
  from ab wf have "length (rows t ! a) = length (columns t)" "length (rows t ! b) = length (columns t)"
    by (simp_all add: wf_row_length)
  with ne show ?thesis
    by (metis nth_equalityI)
qed

















lemma clean_categories_Series:
  assumes "getitem df ''category'' = Inr (Series i)"
  shows "clean_categories L df = Inr (map_column df i (\<lambda>c. Str (normalize_category (cat L c))))"
proof -
  from assms have "''category'' \<in> set (columns df)"
    by (simp add: getitem_Series)
  with assms show ?thesis
    by (simp add: clean_categories_def)
qed

lemma astype_str_NaN: "astype_str L NaN = ''nan''"
  by (simp add: astype_str_def)

lemma cat_nan_text: "lower (collapse_ws (strip_quotes (strip ''nan''))) = ''nan''"
  by code_simp

lemma cat_NaN: "cat L NaN = ''nan''"
  by (simp only: cat_def astype_str_NaN cat_nan_text)

lemma cat_Str_nan: "cat L (Str ''nan'') = ''nan''"
proof -
  have "astype_str L (Str ''nan'') = ''nan''"
    by (simp add: astype_str_def)
  then show ?thesis
    by (simp only: cat_def cat_nan_text)
qed

lemma normalize_category_nan: "normalize_category ''nan'' = ''nan''"
  by code_simp















lemma getitem_count_one:
  "count_list (columns df) name = 1 \<Longrightarrow> getitem df name = Inr (Series (get_loc (columns df) name))"
proof -
  assume c: "count_list (columns df) name = 1"
  then have "count_list (columns df) name \<noteq> 0" by simp
  then have "name \<in> set (columns df)"
    by (simp add: count_list_0_iff)
  with c show ?thesis
    by (simp add: getitem_def)
qed

lemma optional_column_cases:
  assumes "count_list (columns df) name \<le> 1"
  shows "name \<notin> set (columns df) \<or> getitem df name = Inr (Series (get_loc (columns df) name))"
proof (cases "name \<in> set (columns df)")
  case True
  then have "count_list (columns df) name \<noteq> 0"
    by (simp add: count_list_0_iff)
  with assms have "count_list (columns df) name = 1" by simp
  then show ?thesis by (simp add: getitem_count_one)
next
  case False
  then show ?thesis by simp
qed

lemma clean_categories_succeeds:
  "count_list (columns df) ''category'' \<le> 1 \<Longrightarrow> \<exists>d. clean_categories L df = Inr d"
  using optional_column_cases [of df "''category''"]
  by (auto simp: clean_categories_def)

lemma clean_dates_succeeds:
  "count_list (columns df) ''date_sold'' \<le> 1 \<Longrightarrow> \<exists>d. clean_dates L df = Inr d"
  using optional_column_cases [of df "''date_sold''"]
  by (auto simp: clean_dates_def)

lemma clean_prodname_succeeds:
  "count_list (columns df) ''prodname'' \<le> 1 \<Longrightarrow> \<exists>d. clean_prodname L df = Inr d"
  using optional_column_cases [of df "''prodname''"]
  by (auto simp: clean_prodname_def)

lemma remove_invalid_rows_numeric:
  assumes p: "getitem df ''price'' = Inr (Series i)"
    and q: "getitem df ''qty'' = Inr (Series j)"
    and n: "\<forall>r \<in> set (rows df). is_numeric (r ! i) \<and> is_numeric (r ! j)"
  shows "\<exists>out. remove_invalid_rows df = Inr out"
proof -
  from n have "column_gt_zero df ''price'' = Inr (map (\<lambda>r. is_positive (r ! i)) (rows df))"
    by (intro column_gt_zero_numeric [OF p]) simp
  moreover from n have "column_gt_zero df ''qty'' = Inr (map (\<lambda>r. is_positive (r ! j)) (rows df))"
    by (intro column_gt_zero_numeric [OF q]) simp
  ultimately show ?thesis
    by (simp add: remove_invalid_rows_def and_then_def)
qed

lemma handle_missing_values_numeric_cells:
  assumes wf: "wf_table df"
    and cp: "clean_prodname L df = Inr d"
    and p: "getitem df ''price'' = Inr (Series i)"
    and q: "getitem df ''qty'' = Inr (Series j)"
    and run: "handle_missing_values L df = Inr out"
    and r': "r' \<in> set (rows out)"
  shows "is_numeric (r' ! i) \<and> is_numeric (r' ! j)"
proof -
  let ?w = "\<lambda>r. r[i := to_numeric L (r ! i), j := to_numeric L (r ! j)]"
  have cd: "columns d = columns df"
    using cp by (rule clean_prodname_columns)
  have wfd: "wf_table d"
    using cp wf by (rule clean_prodname_wf)
  have ij: "i \<noteq> j"
    using getitem_Series_neq [OF p q] by simp
  have il: "i < length (columns d)" and jl: "j < length (columns d)"
    using p q cd by (simp_all add: getitem_Series_less)
  from run handle_missing_values_present [OF wf cp p q] r'
  obtain r where r: "r \<in> set (rows d)" and e: "r' = ?w r"
    by auto
  from r wfd have "length r = length (columns d)"
    by (simp add: wf_row_length)
  with il jl ij have "r' ! i = to_numeric L (r ! i)" and "r' ! j = to_numeric L (r ! j)"
    by (simp_all add: e)
  with to_numeric_cases [of L "r ! i"] to_numeric_cases [of L "r ! j"] show ?thesis
    by auto
qed

lemma main_succeeds:
  assumes wf: "wf_table df_raw"
    and c: "count_list (map clean_name (columns df_raw)) ''category'' \<le> 1"
      "count_list (map clean_name (columns df_raw)) ''date_sold'' \<le> 1"
      "count_list (map clean_name (columns df_raw)) ''prodname'' \<le> 1"
      "count_list (map clean_name (columns df_raw)) ''price'' = 1"
      "count_list (map clean_name (columns df_raw)) ''qty'' = 1"
  shows "\<exists>out. main L df_raw = Inr out"
proof -
  define d1 where "d1 = clean_column_names df_raw"
  have c1: "columns d1 = map clean_name (columns df_raw)"
    by (simp add: d1_def clean_column_names_def)
  have wf1: "wf_table d1"
    unfolding d1_def using wf by (rule clean_column_names_wf)
  from c(1) obtain d2 where 2: "clean_categories L d1 = Inr d2"
    using clean_categories_succeeds [of d1 L] by (auto simp: c1)
  have c2: "columns d2 = columns d1" using 2 by (rule clean_categories_columns)
  have wf2: "wf_table d2" using 2 wf1 by (rule clean_categories_wf)
  from c(2) obtain d3 where 3: "clean_dates L d2 = Inr d3"
    using clean_dates_succeeds [of d2 L] by (auto simp: c2 c1)
  have c3: "columns d3 = columns d1" using 3 c2 by (simp add: clean_dates_columns)
  have wf3: "wf_table d3" using 3 wf2 by (rule clean_dates_wf)
  from c(3) obtain d where cp: "clean_prodname L d3 = Inr d"
    using clean_prodname_succeeds [of d3 L] by (auto simp: c3 c1)
  define i where "i = get_loc (columns d3) ''price''"
  define j where "j = get_loc (columns d3) ''qty''"
  have p: "getitem d3 ''price'' = Inr (Series i)" and q: "getitem d3 ''qty'' = Inr (Series j)"
    using c(4,5) by (simp_all add: i_def j_def getitem_count_one c3 c1)
  from handle_missing_values_present [OF wf3 cp p q]
  obtain d4 where 4: "handle_missing_values L d3 = Inr d4"
    by blast
  have c4: "columns d4 = columns d3" using 4 by (rule handle_missing_values_columns)
  have "\<forall>r \<in> set (rows d4). is_numeric (r ! i) \<and> is_numeric (r ! j)"
    using handle_missing_values_numeric_cells [OF wf3 cp p q 4] by blast
  moreover have "getitem d4 ''price'' = Inr (Series i)" "getitem d4 ''qty'' = Inr (Series j)"
    using p q by (simp_all add: getitem_cong_columns [OF c4])
  ultimately obtain d5 where 5: "remove_invalid_rows d4 = Inr d5"
    using remove_invalid_rows_numeric by blast
  show ?thesis
    by (simp add: main_def d1_def [symmetric] 2 3 4 5 and_then_def)
qed

section \<open>Claims\<close>

text \<open>
  C6. The Column Normalizer is idempotent: on every table, applying
  \<open>clean_column_names\<close> twice gives the same table as applying it once.
\<close>

theorem clean_column_names_idempotent:
  "clean_column_names (clean_column_names df) = clean_column_names df"
  by (simp add: clean_column_names_def clean_name_idem)

text \<open>
  C1. Whenever the full pipeline returns a table, every row of that table has a number
  greater than zero in the price column and in the qty column. The pipeline does return
  a table when the input is rectangular and, among the cleaned column names, price and
  qty occur once and category, date_sold and prodname at most once.
\<close>

theorem main_price_qty_positive:
  "(main L df_raw = Inr out \<longrightarrow>
      (\<forall>r \<in> set (rows out).
         (\<exists>p. r ! get_loc (columns out) ''price'' = Num p \<and> 0 < p) \<and>
         (\<exists>q. r ! get_loc (columns out) ''qty'' = Num q \<and> 0 < q))) \<and>
   (wf_table df_raw \<and>
    count_list (map clean_name (columns df_raw)) ''category'' \<le> 1 \<and>
    count_list (map clean_name (columns df_raw)) ''date_sold'' \<le> 1 \<and>
    count_list (map clean_name (columns df_raw)) ''prodname'' \<le> 1 \<and>
    count_list (map clean_name (columns df_raw)) ''price'' = 1 \<and>
    count_list (map clean_name (columns df_raw)) ''qty'' = 1 \<longrightarrow>
      (\<exists>res. main L df_raw = Inr res))"
proof (intro conjI impI ballI)
  fix r
  assume run: "main L df_raw = Inr out" and r: "r \<in> set (rows out)"
  from run obtain d4 d5 where v: "remove_invalid_rows d4 = Inr d5"
    and out: "out = drop_duplicates d5"
    by (rule main_Inr)
  from r out have "r \<in> set (rows d5)"
    using set_rows_drop_duplicates by blast
  then have "is_positive (r ! get_loc (columns d4) ''price'')"
    and "is_positive (r ! get_loc (columns d4) ''qty'')"
    by (simp_all add: remove_invalid_rows_Inr(2) [OF v])
  moreover have "columns out = columns d4"
    by (simp add: out remove_invalid_rows_Inr(1) [OF v])
  ultimately show "\<exists>p. r ! get_loc (columns out) ''price'' = Num p \<and> 0 < p"
    and "\<exists>q. r ! get_loc (columns out) ''qty'' = Num q \<and> 0 < q"
    by (simp_all add: is_positive_iff)
next
  assume "wf_table df_raw \<and>
    count_list (map clean_name (columns df_raw)) ''category'' \<le> 1 \<and>
    count_list (map clean_name (columns df_raw)) ''date_sold'' \<le> 1 \<and>
    count_list (map clean_name (columns df_raw)) ''prodname'' \<le> 1 \<and>
    count_list (map clean_name (columns df_raw)) ''price'' = 1 \<and>
    count_list (map clean_name (columns df_raw)) ''qty'' = 1"
  then show "\<exists>res. main L df_raw = Inr res"
    by (intro main_succeeds) simp_all
qed

theorem main_price_qty_positive_witness:
  "wf_table sample_raw \<and>
   count_list (map clean_name (columns sample_raw)) ''category'' \<le> 1 \<and>
   count_list (map clean_name (columns sample_raw)) ''date_sold'' \<le> 1 \<and>
   count_list (map clean_name (columns sample_raw)) ''prodname'' \<le> 1 \<and>
   count_list (map clean_name (columns sample_raw)) ''price'' = 1 \<and>
   count_list (map clean_name (columns sample_raw)) ''qty'' = 1 \<and>
   main sample_lib sample_raw = Inr sample_clean \<and>
   [Str ''Standing Desk'', Str ''office'', Num 150, Num 2, Date 1704412800000000000]
     \<in> set (rows sample_clean) \<and>
   (\<exists>p. [Str ''Standing Desk'', Str ''office'', Num 150, Num 2, Date 1704412800000000000]
           ! get_loc (columns sample_clean) ''price'' = Num p \<and> 0 < p) \<and>
   (\<exists>q. [Str ''Standing Desk'', Str ''office'', Num 150, Num 2, Date 1704412800000000000]
           ! get_loc (columns sample_clean) ''qty'' = Num q \<and> 0 < q)"
proof -
  note t = main_price_qty_positive [of sample_lib sample_raw sample_clean]
  have w: "wf_table sample_raw"
    by (simp add: wf_table_def sample_raw_def)
  have c: "count_list (map clean_name (columns sample_raw)) ''category'' \<le> 1"
    "count_list (map clean_name (columns sample_raw)) ''date_sold'' \<le> 1"
    "count_list (map clean_name (columns sample_raw)) ''prodname'' \<le> 1"
    "count_list (map clean_name (columns sample_raw)) ''price'' = 1"
    "count_list (map clean_name (columns sample_raw)) ''qty'' = 1"
    by code_simp+
  have r: "[Str ''Standing Desk'', Str ''office'', Num 150, Num 2, Date 1704412800000000000]
      \<in> set (rows sample_clean)"
    by (simp add: sample_clean_def)
  from t w c have "\<exists>res. main sample_lib sample_raw = Inr res"
    by blast
  moreover from t main_sample r
  have "(\<exists>p. [Str ''Standing Desk'', Str ''office'', Num 150, Num 2, Date 1704412800000000000]
           ! get_loc (columns sample_clean) ''price'' = Num p \<and> 0 < p) \<and>
   (\<exists>q. [Str ''Standing Desk'', Str ''office'', Num 150, Num 2, Date 1704412800000000000]
           ! get_loc (columns sample_clean) ''qty'' = Num q \<and> 0 < q)"
    by blast
  ultimately show ?thesis
    using w c main_sample r by blast
qed

text \<open>
  C10. On a table whose price and qty columns hold numbers and possibly the missing
  number, \<open>remove_invalid_rows\<close> returns the rows with both values greater than zero; a
  row with a missing price or qty is not among them, so the output has no missing price
  or qty.
\<close>

theorem remove_invalid_rows_drops_missing:
  assumes "getitem df ''price'' = Inr (Series i)"
    and "getitem df ''qty'' = Inr (Series j)"
    and "\<forall>r \<in> set (rows df). is_numeric (r ! i) \<and> is_numeric (r ! j)"
  shows "\<exists>out. remove_invalid_rows df = Inr out \<and>
           columns out = columns df \<and>
           rows out = filter (\<lambda>r. is_positive (r ! i) \<and> is_positive (r ! j)) (rows df) \<and>
           (\<forall>r \<in> set (rows df). r ! i = NaN \<or> r ! j = NaN \<longrightarrow> r \<notin> set (rows out)) \<and>
           (\<forall>r \<in> set (rows out). r ! i \<noteq> NaN \<and> r ! j \<noteq> NaN)"
proof -
  let ?P = "\<lambda>r. is_positive (r ! i) \<and> is_positive (r ! j)"
  from assms(3) have p: "column_gt_zero df ''price'' = Inr (map (\<lambda>r. is_positive (r ! i)) (rows df))"
    by (intro column_gt_zero_numeric [OF assms(1)]) simp
  from assms(3) have q: "column_gt_zero df ''qty'' = Inr (map (\<lambda>r. is_positive (r ! j)) (rows df))"
    by (intro column_gt_zero_numeric [OF assms(2)]) simp
  have m: "map (\<lambda>(a, b). a \<and> b)
             (zip (map (\<lambda>r. is_positive (r ! i)) (rows df)) (map (\<lambda>r. is_positive (r ! j)) (rows df)))
           = map ?P (rows df)"
    by (simp add: zip_map_map zip_same_conv_map comp_def)
  define out where "out = boolean_index df (map ?P (rows df))"
  have run: "remove_invalid_rows df = Inr out"
    by (simp add: remove_invalid_rows_def p q and_then_def m out_def)
  have rws: "rows out = filter ?P (rows df)"
    unfolding out_def by (rule rows_boolean_index_map)
  have "\<forall>r \<in> set (rows df). r ! i = NaN \<or> r ! j = NaN \<longrightarrow> r \<notin> set (rows out)"
    by (auto simp: rws)
  moreover have "\<forall>r \<in> set (rows out). r ! i \<noteq> NaN \<and> r ! j \<noteq> NaN"
    by (auto simp: rws)
  moreover have "columns out = columns df"
    by (simp add: out_def)
  ultimately show ?thesis
    using run rws by blast
qed

theorem remove_invalid_rows_drops_missing_witness:
  "getitem sample_numeric ''price'' = Inr (Series 1) \<and>
   getitem sample_numeric ''qty'' = Inr (Series 2) \<and>
   list_all (\<lambda>r. is_numeric (r ! 1) \<and> is_numeric (r ! 2)) (rows sample_numeric) \<and>
   remove_invalid_rows sample_numeric =
     Inr \<lparr>columns = [''prodname'', ''price'', ''qty''], rows = [[Str ''Lamp'', Num 5, Num 1]]\<rparr>"
proof -
  have a: "getitem sample_numeric ''price'' = Inr (Series 1)"
    by code_simp
  have b: "getitem sample_numeric ''qty'' = Inr (Series 2)"
    by code_simp
  have c: "\<forall>r \<in> set (rows sample_numeric). is_numeric (r ! 1) \<and> is_numeric (r ! 2)"
    by (simp add: sample_numeric_def)
  from remove_invalid_rows_drops_missing [OF a b c]
  obtain out where "remove_invalid_rows sample_numeric = Inr out"
    and "columns out = columns sample_numeric"
    and "rows out = filter (\<lambda>r. is_positive (r ! 1) \<and> is_positive (r ! 2)) (rows sample_numeric)"
    by blast
  then have "remove_invalid_rows sample_numeric =
     Inr \<lparr>columns = [''prodname'', ''price'', ''qty''], rows = [[Str ''Lamp'', Num 5, Num 1]]\<rparr>"
    by (cases out) (simp add: sample_numeric_def)
  with a b c show ?thesis by (simp add: list_all_iff)
qed

text \<open>
  C4. \<open>handle_missing_values\<close> fails whenever the table has no price column or no qty
  column. When each of the two labels selects one column and the product names have
  been cleaned into the table \<open>d\<close>, it returns the rows of \<open>d\<close> whose price and qty both
  convert to a number, in order, with the two cells replaced by these numbers: a row is
  removed exactly when its price or its qty converts to the missing number.
\<close>

theorem handle_missing_values_price_qty:
  "(''price'' \<notin> set (columns df) \<or> ''qty'' \<notin> set (columns df) \<longrightarrow>
      (\<exists>e. handle_missing_values L df = Inl e)) \<and>
   (wf_table df \<and> clean_prodname L df = Inr d \<and>
    getitem df ''price'' = Inr (Series i) \<and> getitem df ''qty'' = Inr (Series j) \<longrightarrow>
      (\<exists>out. handle_missing_values L df = Inr out \<and>
         columns out = columns df \<and>
         rows out = map (\<lambda>r. r[i := to_numeric L (r ! i), j := to_numeric L (r ! j)])
                      (filter (\<lambda>r. to_numeric L (r ! i) \<noteq> NaN \<and> to_numeric L (r ! j) \<noteq> NaN)
                         (rows d)) \<and>
         (\<forall>r \<in> set (rows out). (\<exists>p. r ! i = Num p) \<and> (\<exists>q. r ! j = Num q))))"
proof (intro conjI impI)
  assume "''price'' \<notin> set (columns df) \<or> ''qty'' \<notin> set (columns df)"
  then show "\<exists>e. handle_missing_values L df = Inl e"
    by (rule handle_missing_values_absent)
next
  let ?w = "\<lambda>r. r[i := to_numeric L (r ! i), j := to_numeric L (r ! j)]"
  let ?keep = "\<lambda>r. to_numeric L (r ! i) \<noteq> NaN \<and> to_numeric L (r ! j) \<noteq> NaN"
  assume a: "wf_table df \<and> clean_prodname L df = Inr d \<and>
    getitem df ''price'' = Inr (Series i) \<and> getitem df ''qty'' = Inr (Series j)"
  then have wf: "wf_table df" and cp: "clean_prodname L df = Inr d"
    and p: "getitem df ''price'' = Inr (Series i)" and q: "getitem df ''qty'' = Inr (Series j)"
    by simp_all
  define out where "out = d\<lparr>rows := map ?w (filter ?keep (rows d))\<rparr>"
  have run: "handle_missing_values L df = Inr out"
    unfolding out_def using wf cp p q by (rule handle_missing_values_present)
  have cd: "columns d = columns df"
    using cp by (rule clean_prodname_columns)
  have wfd: "wf_table d"
    using cp wf by (rule clean_prodname_wf)
  have ij: "i \<noteq> j"
    using getitem_Series_neq [OF p q] by simp
  have il: "i < length (columns d)" and jl: "j < length (columns d)"
    using p q cd by (simp_all add: getitem_Series_less)
  have cells: "(\<exists>p. r' ! i = Num p) \<and> (\<exists>q. r' ! j = Num q)" if "r' \<in> set (rows out)" for r'
  proof -
    from that obtain r where r: "r \<in> set (rows d)" and k: "?keep r" and r': "r' = ?w r"
      by (auto simp: out_def)
    from r wfd have "length r = length (columns d)"
      by (simp add: wf_row_length)
    with il jl ij have "r' ! i = to_numeric L (r ! i)" and "r' ! j = to_numeric L (r ! j)"
      by (simp_all add: r')
    with k to_numeric_cases [of L "r ! i"] to_numeric_cases [of L "r ! j"]
    show ?thesis by auto
  qed
  have "columns out = columns df"
    by (simp add: out_def cd)
  moreover have "rows out = map ?w (filter ?keep (rows d))"
    by (simp add: out_def)
  ultimately show "\<exists>out. handle_missing_values L df = Inr out \<and>
         columns out = columns df \<and>
         rows out = map ?w (filter ?keep (rows d)) \<and>
         (\<forall>r \<in> set (rows out). (\<exists>p. r ! i = Num p) \<and> (\<exists>q. r ! j = Num q))"
    using run cells by blast
qed

theorem handle_missing_values_price_qty_witness:
  "''qty'' \<notin> set (columns sample_no_qty) \<and>
   handle_missing_values sample_lib sample_no_qty = Inl (KeyError ''qty'') \<and>
   wf_table sample_sales \<and>
   clean_prodname sample_lib sample_sales =
     Inr (sample_sales\<lparr>rows :=
            [[Str ''Standing Desk'', Str ''150'', Str ''2''],
             [Str ''Pen Set'', Str ''150'', Str ''abc''],
             [Str ''Mug'', NaN, Str ''2'']]\<rparr>) \<and>
   getitem sample_sales ''price'' = Inr (Series 1) \<and>
   getitem sample_sales ''qty'' = Inr (Series 2) \<and>
   handle_missing_values sample_lib sample_sales =
     Inr \<lparr>columns = [''prodname'', ''price'', ''qty''],
          rows = [[Str ''Standing Desk'', Num 150, Num 2]]\<rparr>"
proof -
  have a: "''qty'' \<notin> set (columns sample_no_qty)"
    by (simp add: sample_no_qty_def)
  have b: "wf_table sample_sales"
    by (simp add: wf_table_def sample_sales_def)
  have c: "clean_prodname sample_lib sample_sales =
     Inr (sample_sales\<lparr>rows :=
            [[Str ''Standing Desk'', Str ''150'', Str ''2''],
             [Str ''Pen Set'', Str ''150'', Str ''abc''],
             [Str ''Mug'', NaN, Str ''2'']]\<rparr>)"
    by code_simp
  have d: "getitem sample_sales ''price'' = Inr (Series 1)"
    by code_simp
  have e: "getitem sample_sales ''qty'' = Inr (Series 2)"
    by code_simp
  note t = handle_missing_values_price_qty [of sample_sales sample_lib _ 1 2]
  have "\<exists>e. handle_missing_values sample_lib sample_no_qty = Inl e"
    using handle_missing_values_price_qty [of sample_no_qty sample_lib] a by blast
  with handle_missing_values_sample_no_qty
  have f: "handle_missing_values sample_lib sample_no_qty = Inl (KeyError ''qty'')"
    by simp
  have "\<exists>out. handle_missing_values sample_lib sample_sales = Inr out"
    using t b c d e by blast
  with handle_missing_values_sample_sales
  have g: "handle_missing_values sample_lib sample_sales =
     Inr \<lparr>columns = [''prodname'', ''price'', ''qty''],
          rows = [[Str ''Standing Desk'', Num 150, Num 2]]\<rparr>"
    by simp
  from a f b c d e g show ?thesis by blast
qed

text \<open>
  C8. A stage whose column is optional does not fail when the column is absent:
  \<open>clean_categories\<close> returns the table unchanged when there is no category column,
  \<open>clean_dates\<close> returns it unchanged when there is no date_sold column, and without a
  prodname column \<open>handle_missing_values\<close> leaves the text as it is and goes on to the
  price and qty columns of the unchanged table.
\<close>

theorem optional_column_absent:
  "(''category'' \<notin> set (columns df) \<longrightarrow> clean_categories L df = Inr df) \<and>
   (''date_sold'' \<notin> set (columns df) \<longrightarrow> clean_dates L df = Inr df) \<and>
   (''prodname'' \<notin> set (columns df) \<longrightarrow>
      clean_prodname L df = Inr df \<and>
      handle_missing_values L df =
        and_then (coerce_column L ''price'' df) (\<lambda>df.
        and_then (coerce_column L ''qty'' df) (\<lambda>df.
          Inr (dropna df [get_loc (columns df) ''price'', get_loc (columns df) ''qty'']))))"
  by (simp add: clean_categories_def clean_dates_def clean_prodname_def
      handle_missing_values_def and_then_def)

theorem optional_column_absent_witness:
  "''category'' \<notin> set (columns sample_bare) \<and>
   ''date_sold'' \<notin> set (columns sample_bare) \<and>
   ''prodname'' \<notin> set (columns sample_bare) \<and>
   clean_categories sample_lib sample_bare = Inr sample_bare \<and>
   clean_dates sample_lib sample_bare = Inr sample_bare \<and>
   clean_prodname sample_lib sample_bare = Inr sample_bare \<and>
   handle_missing_values sample_lib sample_bare =
     Inr \<lparr>columns = [''price'', ''qty''], rows = [[Num 150, Num 2]]\<rparr>"
proof -
  have a: "''category'' \<notin> set (columns sample_bare)"
    and b: "''date_sold'' \<notin> set (columns sample_bare)"
    and c: "''prodname'' \<notin> set (columns sample_bare)"
    by (simp_all add: sample_bare_def)
  have d: "handle_missing_values sample_lib sample_bare =
     Inr \<lparr>columns = [''price'', ''qty''], rows = [[Num 150, Num 2]]\<rparr>"
    by code_simp
  from optional_column_absent [of sample_bare sample_lib] a b c d show ?thesis
    by simp
qed

text \<open>
  C3. On a table whose date_sold label selects one column, \<open>clean_dates\<close> turns every
  value of that column into a timestamp or, when none can be read from it (as for a
  missing or empty value), into the missing timestamp; it returns, in their order, the
  rows whose value became a timestamp, and removes exactly the others. Consequently,
  when the input of the full pipeline has a date_sold column, every row of the
  pipeline's output holds a timestamp there.
\<close>

theorem clean_dates_drops_unparsed:
  "(wf_table df \<and> getitem df ''date_sold'' = Inr (Series i) \<longrightarrow>
      (\<exists>out. clean_dates L df = Inr out \<and>
         columns out = columns df \<and>
         rows out = map (\<lambda>r. r[i := to_datetime L (series_values df i) (r ! i)])
                      (filter (\<lambda>r. to_datetime L (series_values df i) (r ! i) \<noteq> NaT) (rows df)) \<and>
         (\<forall>r \<in> set (rows out). \<exists>t. r ! i = Date t))) \<and>
   (to_datetime L col c = NaT \<or> (\<exists>t. to_datetime L col c = Date t)) \<and>
   to_datetime L col NaN = NaT \<and> to_datetime L col (Str []) = NaT \<and>
   (main L df_raw = Inr final \<and> wf_table df_raw \<and>
    ''date_sold'' \<in> set (map clean_name (columns df_raw)) \<longrightarrow>
      (\<forall>r \<in> set (rows final). \<exists>t. r ! get_loc (columns final) ''date_sold'' = Date t))"
proof (intro conjI impI)
  let ?f = "to_datetime L (series_values df i)"
  assume a: "wf_table df \<and> getitem df ''date_sold'' = Inr (Series i)"
  then have wf: "wf_table df" and g: "getitem df ''date_sold'' = Inr (Series i)"
    by simp_all
  define out where "out = df\<lparr>rows := map (\<lambda>r. r[i := ?f (r ! i)])
      (filter (\<lambda>r. ?f (r ! i) \<noteq> NaT) (rows df))\<rparr>"
  have run: "clean_dates L df = Inr out"
    unfolding out_def using wf g by (rule clean_dates_Series)
  have i: "i = get_loc (columns df) ''date_sold''" and mem: "''date_sold'' \<in> set (columns df)"
    using g by (simp_all add: getitem_Series)
  have "\<forall>r \<in> set (rows out). \<exists>t. r ! i = Date t"
    using clean_dates_parsed [OF run wf mem] i by blast
  moreover have "columns out = columns df"
    and "rows out = map (\<lambda>r. r[i := ?f (r ! i)]) (filter (\<lambda>r. ?f (r ! i) \<noteq> NaT) (rows df))"
    by (simp_all add: out_def)
  ultimately show "\<exists>out. clean_dates L df = Inr out \<and>
         columns out = columns df \<and>
         rows out = map (\<lambda>r. r[i := ?f (r ! i)]) (filter (\<lambda>r. ?f (r ! i) \<noteq> NaT) (rows df)) \<and>
         (\<forall>r \<in> set (rows out). \<exists>t. r ! i = Date t)"
    using run by blast
next
  show "to_datetime L col c = NaT \<or> (\<exists>t. to_datetime L col c = Date t)"
    by (rule to_datetime_cases)
next
  show "to_datetime L col NaN = NaT"
    by (rule to_datetime_missing)
next
  show "to_datetime L col (Str []) = NaT"
    by (rule to_datetime_missing)
next
  assume a: "main L df_raw = Inr final \<and> wf_table df_raw \<and>
    ''date_sold'' \<in> set (map clean_name (columns df_raw))"
  then have run: "main L df_raw = Inr final" and wf: "wf_table df_raw"
    by simp_all
  from a have mem: "''date_sold'' \<in> set (columns final)"
    by (simp only: main_columns [OF run])
  show "\<forall>r \<in> set (rows final). \<exists>t. r ! get_loc (columns final) ''date_sold'' = Date t"
    using main_date_sold [OF run wf mem] by blast
qed

theorem clean_dates_drops_unparsed_witness:
  "wf_table sample_dated \<and>
   getitem sample_dated ''date_sold'' = Inr (Series 1) \<and>
   clean_dates sample_lib sample_dated =
     Inr \<lparr>columns = [''prodname'', ''date_sold''],
          rows = [[Str ''desk'', Date 1704412800000000000]]\<rparr> \<and>
   main sample_lib sample_raw = Inr sample_clean \<and>
   wf_table sample_raw \<and>
   ''date_sold'' \<in> set (map clean_name (columns sample_raw)) \<and>
   [Str ''Standing Desk'', Str ''office'', Num 150, Num 2, Date 1704412800000000000]
     \<in> set (rows sample_clean) \<and>
   (\<exists>t. [Str ''Standing Desk'', Str ''office'', Num 150, Num 2, Date 1704412800000000000]
          ! get_loc (columns sample_clean) ''date_sold'' = Date t)"
proof -
  have a: "wf_table sample_dated"
    by (simp add: wf_table_def sample_dated_def)
  have b: "getitem sample_dated ''date_sold'' = Inr (Series 1)"
    by code_simp
  have c: "clean_dates sample_lib sample_dated =
     Inr \<lparr>columns = [''prodname'', ''date_sold''],
          rows = [[Str ''desk'', Date 1704412800000000000]]\<rparr>"
    by code_simp
  have d: "wf_table sample_raw"
    by (simp add: wf_table_def sample_raw_def)
  have e: "''date_sold'' \<in> set (map clean_name (columns sample_raw))"
    by code_simp
  have f: "[Str ''Standing Desk'', Str ''office'', Num 150, Num 2, Date 1704412800000000000]
     \<in> set (rows sample_clean)"
    by (simp add: sample_clean_def)
  note t = clean_dates_drops_unparsed [of sample_dated 1 sample_lib "[]" NaN sample_raw sample_clean]
  from t a b have "\<exists>out. clean_dates sample_lib sample_dated = Inr out"
    by blast
  moreover from t main_sample d e
  have "\<forall>r \<in> set (rows sample_clean). \<exists>t. r ! get_loc (columns sample_clean) ''date_sold'' = Date t"
    by blast
  then have "\<exists>t. [Str ''Standing Desk'', Str ''office'', Num 150, Num 2, Date 1704412800000000000]
          ! get_loc (columns sample_clean) ''date_sold'' = Date t"
    using f by blast
  ultimately show ?thesis
    using a b c d e f main_sample by blast
qed

text \<open>
  C5. \<open>drop_duplicates\<close> keeps the row at a position exactly when no equal row stands
  above it, and keeps these rows in their order; the rows it returns are pairwise
  different. Consequently any two rows at different positions of the pipeline's output
  differ in at least one column.
\<close>

theorem drop_duplicates_keeps_first:
  "rows (drop_duplicates df) =
     map (\<lambda>i. rows df ! i)
       (filter (\<lambda>i. rows df ! i \<notin> set (take i (rows df))) [0..<length (rows df)]) \<and>
   columns (drop_duplicates df) = columns df \<and>
   distinct (rows (drop_duplicates df)) \<and>
   (main L df_raw = Inr final \<and> wf_table df_raw \<longrightarrow>
      (\<forall>a b. a < b \<and> b < length (rows final) \<longrightarrow>
         (\<exists>k < length (columns final). rows final ! a ! k \<noteq> rows final ! b ! k)))"
proof (intro conjI impI allI)
  show "rows (drop_duplicates df) =
     map (\<lambda>i. rows df ! i)
       (filter (\<lambda>i. rows df ! i \<notin> set (take i (rows df))) [0..<length (rows df)])"
    by (rule rows_drop_duplicates)
  show "columns (drop_duplicates df) = columns df"
    by simp
  show "distinct (rows (drop_duplicates df))"
    by (rule distinct_rows_drop_duplicates)
next
  fix a b
  assume run: "main L df_raw = Inr final \<and> wf_table df_raw"
    and ab: "a < b \<and> b < length (rows final)"
  from run have "wf_table final" and "distinct (rows final)"
    using main_wf main_distinct by blast+
  with ab show "\<exists>k < length (columns final). rows final ! a ! k \<noteq> rows final ! b ! k"
    by (simp add: rows_differ_in_column)
qed

theorem drop_duplicates_keeps_first_witness:
  "drop_duplicates sample_dups =
     \<lparr>columns = [''prodname'', ''qty''], rows = [[Str ''Pen Set'', Num 2], [Str ''Mug'', NaN]]\<rparr> \<and>
   main sample_lib sample_raw = Inr sample_clean \<and>
   wf_table sample_raw \<and>
   (0::nat) < 1 \<and> 1 < length (rows sample_clean) \<and>
   (\<exists>k < length (columns sample_clean). rows sample_clean ! 0 ! k \<noteq> rows sample_clean ! 1 ! k)"
proof -
  have a: "drop_duplicates sample_dups =
     \<lparr>columns = [''prodname'', ''qty''], rows = [[Str ''Pen Set'', Num 2], [Str ''Mug'', NaN]]\<rparr>"
    by code_simp
  have b: "wf_table sample_raw"
    by (simp add: wf_table_def sample_raw_def)
  have c: "1 < length (rows sample_clean)"
    by (simp add: sample_clean_def)
  from drop_duplicates_keeps_first [of sample_dups sample_lib sample_raw sample_clean] main_sample b c
  have "\<exists>k < length (columns sample_clean). rows sample_clean ! 0 ! k \<noteq> rows sample_clean ! 1 ! k"
    by (metis zero_less_one)
  with a b c main_sample show ?thesis
    by simp
qed



text \<open>
  C9. A missing category value is not skipped and does not stay missing:
  \<open>.astype(str)\<close> turns it into the text \<open>nan\<close>, which is cleaned and matched like the
  same text read from the file, and the category of the row becomes the text \<open>nan\<close>.
  After \<open>clean_categories\<close> every row holds text in the category column.
\<close>

theorem clean_categories_missing_value:
  "astype_str L NaN = ''nan'' \<and>
   cat L NaN = cat L (Str ''nan'') \<and>
   normalize_category (cat L NaN) = ''nan'' \<and>
   (wf_table df \<and> getitem df ''category'' = Inr (Series i) \<longrightarrow>
      (\<exists>res. clean_categories L df = Inr res \<and>
         length (rows res) = length (rows df) \<and>
         (\<forall>n < length (rows df). rows df ! n ! i = NaN \<longrightarrow> rows res ! n ! i = Str ''nan'') \<and>
         (\<forall>n < length (rows df). \<exists>s. rows res ! n ! i = Str s)))"
proof (intro conjI impI)
  show "astype_str L NaN = ''nan''"
    by (rule astype_str_NaN)
  show "cat L NaN = cat L (Str ''nan'')"
    by (simp only: cat_NaN cat_Str_nan)
  show "normalize_category (cat L NaN) = ''nan''"
    by (simp only: cat_NaN normalize_category_nan)
next
  let ?f = "\<lambda>c. Str (normalize_category (cat L c))"
  assume a: "wf_table df \<and> getitem df ''category'' = Inr (Series i)"
  then have wf: "wf_table df" and g: "getitem df ''category'' = Inr (Series i)"
    by simp_all
  define res where "res = map_column df i ?f"
  have run: "clean_categories L df = Inr res"
    unfolding res_def using g by (rule clean_categories_Series)
  have il: "i < length (columns df)"
    using g by (rule getitem_Series_less)
  have cell: "rows res ! n ! i = ?f (rows df ! n ! i)" if "n < length (rows df)" for n
  proof -
    from that wf have "length (rows df ! n) = length (columns df)"
      by (simp add: wf_row_length)
    with il that show ?thesis
      by (simp add: res_def rows_map_column)
  qed
  have "length (rows res) = length (rows df)"
    by (simp add: res_def rows_map_column)
  moreover have "\<forall>n < length (rows df). rows df ! n ! i = NaN \<longrightarrow> rows res ! n ! i = Str ''nan''"
    by (simp add: cell cat_NaN normalize_category_nan)
  moreover have "\<forall>n < length (rows df). \<exists>s. rows res ! n ! i = Str s"
    by (simp add: cell)
  ultimately show "\<exists>res. clean_categories L df = Inr res \<and>
         length (rows res) = length (rows df) \<and>
         (\<forall>n < length (rows df). rows df ! n ! i = NaN \<longrightarrow> rows res ! n ! i = Str ''nan'') \<and>
         (\<forall>n < length (rows df). \<exists>s. rows res ! n ! i = Str s)"
    using run by blast
qed

theorem clean_categories_missing_value_witness:
  "wf_table sample_cats \<and>
   getitem sample_cats ''category'' = Inr (Series 0) \<and>
   (3::nat) < length (rows sample_cats) \<and>
   rows sample_cats ! 3 ! 0 = NaN \<and>
   (\<exists>res. clean_categories sample_lib sample_cats = Inr res \<and>
      length (rows res) = length (rows sample_cats) \<and> rows res ! 3 ! 0 = Str ''nan'')"
proof -
  have a: "wf_table sample_cats"
    by (simp add: wf_table_def sample_cats_def)
  have b: "getitem sample_cats ''category'' = Inr (Series 0)"
    by code_simp
  have c: "(3::nat) < length (rows sample_cats)"
    by (simp add: sample_cats_def)
  have d: "rows sample_cats ! 3 ! 0 = NaN"
    by (simp add: sample_cats_def)
  from clean_categories_missing_value [of sample_lib sample_cats 0] a b
  obtain res where "clean_categories sample_lib sample_cats = Inr res"
    and "length (rows res) = length (rows sample_cats)"
    and "\<forall>n < length (rows sample_cats). rows sample_cats ! n ! 0 = NaN \<longrightarrow> rows res ! n ! 0 = Str ''nan''"
    by blast
  with c d have "\<exists>res. clean_categories sample_lib sample_cats = Inr res \<and>
      length (rows res) = length (rows sample_cats) \<and> rows res ! 3 ! 0 = Str ''nan''"
    by blast
  with a b c d show ?thesis
    by blast
qed




end
